theory Spec2Isabelle
  imports Complex_Main
begin

section \<open>Python strings\<close>

text \<open>
  A Python \<open>str\<close> is a sequence of Unicode code points. It is modelled as the list of
  its code points, so that \<open>str.split\<close> sees the same characters as the interpreter
  does (a list of bytes would hide the white space beyond ASCII). A literal of the
  source is written \<open>lit ''...''\<close>.
\<close>

type_synonym pystr = "nat list"

definition lit :: "string \<Rightarrow> pystr" where
  "lit s = map of_char s"

text \<open>
  The white space of \<open>str.split()\<close> and \<open>str.isspace()\<close>: TAB, LF, VT, FF, CR, the
  separators FS, GS, RS, US, SPACE, NEL, NBSP, OGHAM SPACE MARK, EN QUAD .. HAIR SPACE,
  LINE and PARAGRAPH SEPARATOR, NARROW NBSP, MEDIUM MATHEMATICAL SPACE, IDEOGRAPHIC
  SPACE.
\<close>

definition isspace :: "nat \<Rightarrow> bool" where
  "isspace c \<longleftrightarrow>
     (9 \<le> c \<and> c \<le> 13) \<or> (28 \<le> c \<and> c \<le> 32) \<or> c = 133 \<or> c = 160 \<or> c = 5760 \<or>
     (8192 \<le> c \<and> c \<le> 8202) \<or> c = 8232 \<or> c = 8233 \<or> c = 8239 \<or> c = 8287 \<or>
     c = 12288"

text \<open>
  \<open>s.split()\<close> with no separator: skip a run of white space, stop at the end of the
  string, otherwise cut the word that runs to the next white space and go on behind it.
\<close>

function split :: "pystr \<Rightarrow> pystr list" where
  "split s =
     (case dropWhile isspace s of
        [] \<Rightarrow> []
      | c # cs \<Rightarrow>
          takeWhile (\<lambda>x. \<not> isspace x) (c # cs) #
          split (dropWhile (\<lambda>x. \<not> isspace x) (c # cs)))"
  by pat_completeness auto
termination
proof (relation "measure length")
  show "wf (measure length)" by simp
next
  fix s :: pystr and c cs
  assume eq: "dropWhile isspace s = c # cs"
  have "\<not> isspace c"
    using hd_dropWhile [of isspace s] eq by simp
  then have "dropWhile (\<lambda>x. \<not> isspace x) (c # cs) = dropWhile (\<lambda>x. \<not> isspace x) cs"
    by simp
  moreover have "length (dropWhile (\<lambda>x. \<not> isspace x) cs) \<le> length cs"
    by (rule length_dropWhile_le)
  moreover have "length (c # cs) \<le> length s"
    using length_dropWhile_le [of isspace s] eq by simp
  ultimately show "(dropWhile (\<lambda>x. \<not> isspace x) (c # cs), s) \<in> measure length"
    by simp
qed

declare split.simps [simp del]

text \<open>\<open>sep.join(xs)\<close>: the elements of \<open>xs\<close> with \<open>sep\<close> between neighbours.\<close>

fun join :: "pystr \<Rightarrow> pystr list \<Rightarrow> pystr" where
  "join sep [] = []"
| "join sep [x] = x"
| "join sep (x # y # ys) = x @ sep @ join sep (y # ys)"

text \<open>
  The decimal rendering of an \<open>int\<close>, as \<open>str(n)\<close> and the replacement field \<open>{}\<close> of
  \<open>str.format\<close> print it: the digits, most significant first, behind a minus sign when
  the number is negative.
\<close>

fun digits :: "nat \<Rightarrow> pystr" where
  "digits n = (if n < 10 then [48 + n] else digits (n div 10) @ [48 + n mod 10])"

declare digits.simps [simp del]

definition str_int :: "int \<Rightarrow> pystr" where
  "str_int i = (if i < 0 then 45 # digits (nat (- i)) else digits (nat i))"

text \<open>The value a string of decimal digits denotes (what \<open>int(s)\<close> reads back).\<close>

definition digits_value :: "pystr \<Rightarrow> nat" where
  "digits_value ds = foldl (\<lambda>a d. 10 * a + (d - 48)) 0 ds"

section \<open>The query builder\<close>

text \<open>
  \<^verbatim>\<open>
  def gen_query_url(url, terms, max_results=100):
      if isinstance(terms, str):
          terms = terms.split()
      return ''.join([url,
                      "query=",
                      "%20".join(terms),
                      "&maxResults={}".format(max_results)])
  \<close>
  The argument \<open>terms\<close> is a string or a sequence of strings; the first branch turns the
  former into the latter.
\<close>

datatype terms = Str pystr | Seq "pystr list"

definition gen_query_url :: "pystr \<Rightarrow> terms \<Rightarrow> int \<Rightarrow> pystr" where
  "gen_query_url url terms max_results =
     (let terms' = (case terms of Str s \<Rightarrow> split s | Seq ts \<Rightarrow> ts)
      in join [] [url,
                  lit ''query='',
                  join (lit ''%20'') terms',
                  lit ''&maxResults='' @ str_int max_results])"

text \<open>The call without the third argument takes the default \<open>max_results=100\<close>.\<close>

definition gen_query_url_default :: "pystr \<Rightarrow> terms \<Rightarrow> pystr" where
  "gen_query_url_default url terms = gen_query_url url terms 100"

section \<open>Values, errors and the remote endpoint\<close>

text \<open>
  What \<open>json.loads\<close> builds from a response body. A \<open>dict\<close> is kept as the list of its
  items in insertion order (the keys of a \<open>dict\<close> are distinct); no operation of the
  notebook looks inside a number.
\<close>

datatype pyval =
    PNone
  | PBool bool
  | PInt int
  | PFloat real
  | PStr pystr
  | PList "pyval list"
  | PDict "(pystr \<times> pyval) list"

text \<open>
  The exceptions a fetch can end with: the connection fails or times out
  (\<open>aiohttp.ClientError\<close>, \<open>asyncio.TimeoutError\<close>), the body is not JSON
  (\<open>ContentTypeError\<close>, \<open>JSONDecodeError\<close>), the parsed body has no such key
  (\<open>KeyError\<close>), it is not a \<open>dict\<close> or the field cannot be iterated (\<open>TypeError\<close>),
  or the tweet parser refuses a record (\<open>NotATweetError\<close>).
\<close>

datatype error =
    ClientError
  | TimeoutError
  | ContentTypeError
  | JSONDecodeError
  | KeyError pystr
  | TypeError
  | NotATweetError

text \<open>
  A response, as far as the notebook reads it: what \<open>await response.json()\<close> gives.
  A session is what its calls of \<open>session.get(url, auth=...)\<close> give: \<open>session k url\<close> is
  what call number \<open>k\<close> of the session (counted from 0) gives when it asks for \<open>url\<close>,
  an exception or a response. The remote endpoint need not answer the same URL twice in
  the same way. The credentials are the same in every call, so they are part of it.
\<close>

datatype response = Response (json: "error + pyval")

type_synonym session = "nat \<Rightarrow> pystr \<Rightarrow> error + response"

text \<open>\<open>obj[key]\<close> for a string key: only a \<open>dict\<close> can be indexed by a string.\<close>

fun getitem :: "pyval \<Rightarrow> pystr \<Rightarrow> error + pyval" where
  "getitem (PDict kvs) k = (case map_of kvs k of None \<Rightarrow> Inl (KeyError k) | Some v \<Rightarrow> Inr v)"
| "getitem _ k = Inl TypeError"

text \<open>
  \<open>for t in obj\<close>: a list gives its elements, a \<open>dict\<close> its keys, a string its
  characters; nothing else among the values of a parsed body can be iterated.
\<close>

fun iter :: "pyval \<Rightarrow> error + pyval list" where
  "iter (PList xs) = Inr xs"
| "iter (PDict kvs) = Inr (map (\<lambda>kv. PStr (fst kv)) kvs)"
| "iter (PStr s) = Inr (map (\<lambda>c. PStr [c]) s)"
| "iter _ = Inl TypeError"

text \<open>
  The list comprehension \<open>[f(t) for t in ts]\<close> with a body that may raise: the elements
  are built left to right and the first exception ends the whole expression.
\<close>

fun comprehension :: "('a \<Rightarrow> error + 'b) \<Rightarrow> 'a list \<Rightarrow> error + 'b list" where
  "comprehension f [] = Inr []"
| "comprehension f (x # xs) =
     (case f x of
        Inl e \<Rightarrow> Inl e
      | Inr y \<Rightarrow> (case comprehension f xs of Inl e \<Rightarrow> Inl e | Inr ys \<Rightarrow> Inr (y # ys)))"

text \<open>
  What the notebook changes outside its own values: the client sessions it has opened
  and closed, and the URLs it has called \<open>session.get\<close> on, in the order of the calls.
\<close>

record world =
  sessions_opened :: nat
  sessions_closed :: nat
  get_calls :: "pystr list"

section \<open>The fetchers\<close>

text \<open>
  \<^verbatim>\<open>
  async def fetch_tweets_coroutine(url):
      async with aiohttp.ClientSession() as session:
          async with session.get(url, auth=...) as response:
              return await response.json()
  \<close>
  The coroutine opens a session of its own and makes the first call of that session;
  the session is closed on the way out of the \<open>async with\<close> block whether the body
  returns or raises.
\<close>

definition fetch_tweets_coroutine :: "session \<Rightarrow> pystr \<Rightarrow> world \<Rightarrow> (error + pyval) \<times> world" where
  "fetch_tweets_coroutine session url w =
     (let w1 = w\<lparr>sessions_opened := sessions_opened w + 1\<rparr>;
          w2 = w1\<lparr>get_calls := get_calls w1 @ [url]\<rparr>;
          r = (case session 0 url of Inl e \<Rightarrow> Inl e | Inr response \<Rightarrow> json response)
      in (r, w2\<lparr>sessions_closed := sessions_closed w2 + 1\<rparr>))"

text \<open>
  The cell that calls it reads the field \<open>results\<close> from what it returns and builds
  the tweets:
  \<^verbatim>\<open>
  loop = asyncio.get_event_loop()
  tweets = [Tweet(i) for i in loop.run_until_complete(fetch_tweets_coroutine(query))['results']]
  \<close>
\<close>

definition tweets ::
  "(pyval \<Rightarrow> error + 'tw) \<Rightarrow> session \<Rightarrow> pystr \<Rightarrow> world \<Rightarrow> (error + 'tw list) \<times> world" where
  "tweets Tweet session query w =
     (case fetch_tweets_coroutine session query w of
        (Inl e, w') \<Rightarrow> (Inl e, w')
      | (Inr body, w') \<Rightarrow>
          (case getitem body (lit ''results'') of
             Inl e \<Rightarrow> (Inl e, w')
           | Inr results \<Rightarrow>
               (case iter results of
                  Inl e \<Rightarrow> (Inl e, w')
                | Inr ts \<Rightarrow> (comprehension Tweet ts, w'))))"

text \<open>
  \<^verbatim>\<open>
  async def fetch_tweets_fancy(session, url):
      async with session.get(url, auth=...) as response:
          _json = await response.json()
          return [Tweet(t) for t in _json["results"]]
  \<close>
  The result of the coroutine once its response has arrived; \<open>k\<close> is the number of the
  call of \<open>session.get\<close> that it makes. \<open>Tweet\<close> is the constructor of the tweet
  parser, a library outside the notebook: it is a parameter, and it may refuse a
  record. The call of \<open>session.get\<close> is recorded where the task is started
  (\<open>collect_queries\<close> below).
\<close>

definition fetch_tweets_fancy ::
  "(pyval \<Rightarrow> error + 'tw) \<Rightarrow> session \<Rightarrow> nat \<Rightarrow> pystr \<Rightarrow> error + 'tw list" where
  "fetch_tweets_fancy Tweet session k url =
     (case session k url of
        Inl e \<Rightarrow> Inl e
      | Inr response \<Rightarrow>
          (case json response of
             Inl e \<Rightarrow> Inl e
           | Inr body \<Rightarrow>
               (case getitem body (lit ''results'') of
                  Inl e \<Rightarrow> Inl e
                | Inr results \<Rightarrow>
                    (case iter results of
                       Inl e \<Rightarrow> Inl e
                     | Inr ts \<Rightarrow> comprehension Tweet ts))))"

section \<open>The event loop and \<open>asyncio.gather\<close>\<close>

text \<open>
  \<open>asyncio.gather(*tasks)\<close> with the default \<open>return_exceptions=False\<close> returns a
  future \<open>outer\<close> and hangs a callback on every child. The callback of child \<open>i\<close> does
  nothing once \<open>outer\<close> is done; otherwise an exception of the child becomes the
  exception of \<open>outer\<close> at once, and a result is stored at position \<open>i\<close>; when every
  child has stored its result, the list of results becomes the result of \<open>outer\<close>.
  With no children \<open>outer\<close> is done from the start, with the empty list.
\<close>

record 'a gather_state =
  results :: "'a option list"
  nfinished :: nat
  outer :: "(error + 'a list) option"

definition gather :: "nat \<Rightarrow> 'a gather_state" where
  "gather nchildren =
     \<lparr>results = replicate nchildren None, nfinished = 0,
      outer = (if nchildren = 0 then Some (Inr []) else None)\<rparr>"

definition done_callback :: "nat \<Rightarrow> error + 'a \<Rightarrow> 'a gather_state \<Rightarrow> 'a gather_state" where
  "done_callback i fut g =
     (if outer g \<noteq> None then g
      else case fut of
        Inl exc \<Rightarrow> g\<lparr>outer := Some (Inl exc)\<rparr>
      | Inr res \<Rightarrow>
          (let g1 = g\<lparr>results := (results g)[i := Some res], nfinished := nfinished g + 1\<rparr>
           in if nfinished g1 = length (results g1)
              then g1\<lparr>outer := Some (Inr (List.map_filter (\<lambda>r. r) (results g1)))\<rparr>
              else g1))"

text \<open>
  The event loop is single-threaded: the tasks finish one at a time, in an order that
  the network decides. \<open>arrivals\<close> lists the positions of the tasks in the order in
  which they finish; \<open>task i\<close> is what task \<open>i\<close> finishes with. The loop stops as soon
  as \<open>outer\<close> is done (the awaiting coroutine goes on, and \<open>run_until_complete\<close>
  returns); a task finishes once, so an arrival for a task that is not pending, or for
  no task at all, changes nothing. If the arrivals run out before \<open>outer\<close> is done,
  the coroutine that awaits it never goes on.
\<close>

fun run_events :: "(nat \<Rightarrow> error + 'a) \<Rightarrow> nat list \<Rightarrow> 'a gather_state \<Rightarrow> 'a gather_state" where
  "run_events task [] g = g"
| "run_events task (i # arrivals) g =
     (if outer g \<noteq> None then g
      else if i < length (results g) \<and> results g ! i = None
        then run_events task arrivals (done_callback i (task i) g)
        else run_events task arrivals g)"

section \<open>The dispatcher\<close>

text \<open>
  \<^verbatim>\<open>
  async def collect_queries(queries):
      tasks = []
      async with aiohttp.ClientSession() as session:
          for query in queries:
              task = asyncio.ensure_future(fetch_tweets_fancy(session, query))
              tasks.append(task)
          responses = await asyncio.gather(*tasks)
          return responses
  \<close>
  The session is opened; every query gets a task, and each task calls \<open>session.get\<close> in
  its first step, in the order of the queries, before any of them can finish: the task
  at position \<open>k\<close> makes call number \<open>k\<close> of the session. The coroutine then waits for
  \<open>outer\<close>. When \<open>outer\<close> is done the block is left, by
  \<open>return\<close> or by the exception, and the session is closed. The result is \<open>None\<close> when
  the coroutine never goes on.
\<close>

definition collect_queries ::
  "(pyval \<Rightarrow> error + 'tw) \<Rightarrow> session \<Rightarrow> nat list \<Rightarrow> pystr list \<Rightarrow> world \<Rightarrow>
     (error + 'tw list list) option \<times> world" where
  "collect_queries Tweet session arrivals queries w =
     (let w1 = w\<lparr>sessions_opened := sessions_opened w + 1\<rparr>;
          tasks = map (\<lambda>k. fetch_tweets_fancy Tweet session k (queries ! k)) [0..<length queries];
          w2 = w1\<lparr>get_calls := get_calls w1 @ queries\<rparr>;
          g = run_events (\<lambda>i. tasks ! i) arrivals (gather (length tasks))
      in case outer g of
           None \<Rightarrow> (None, w2)
         | Some responses \<Rightarrow>
             (Some responses, w2\<lparr>sessions_closed := sessions_closed w2 + 1\<rparr>))"

text \<open>
  The cell that calls it flattens the lists of the queries into one:
  \<^verbatim>\<open>
  future = asyncio.ensure_future(collect_queries(queries))
  res = list(it.chain.from_iterable(loop.run_until_complete(future)))
  \<close>
\<close>

definition res :: "(error + 'tw list list) option \<Rightarrow> (error + 'tw list) option" where
  "res future =
     (case future of
        None \<Rightarrow> None
      | Some (Inl e) \<Rightarrow> Some (Inl e)
      | Some (Inr responses) \<Rightarrow> Some (Inr (concat responses)))"

section \<open>The query builder as a call on the heap\<close>

text \<open>
  Python passes references to objects. A string and an integer cannot be changed, so a
  reference to one is as good as its value. A list can be changed in place, and the
  caller sees every change that a function makes to a list it was given. The heap holds
  the list objects by address; the addresses below \<open>allocated\<close> are taken. \<open>io\<close> is the
  world of sessions and network calls. The argument \<open>terms\<close> of a call is a string or
  the address of a list of strings.
\<close>

record machine =
  io :: world
  lists :: "nat \<Rightarrow> pystr list"
  allocated :: nat

datatype terms_obj = StrObj pystr | ListObj nat

definition terms_value :: "machine \<Rightarrow> terms_obj \<Rightarrow> terms" where
  "terms_value st t = (case t of StrObj s \<Rightarrow> Str s | ListObj r \<Rightarrow> Seq (lists st r))"

text \<open>
  A list display \<open>[a, b, ...]\<close> builds a new list object. \<open>s.split()\<close> returns a new
  list object with the words of \<open>s\<close>. \<open>sep.join(xs)\<close> reads the list \<open>xs\<close> and returns
  a string.
\<close>

definition new_list :: "pystr list \<Rightarrow> machine \<Rightarrow> nat \<times> machine" where
  "new_list xs st =
     (allocated st, st\<lparr>lists := (lists st)(allocated st := xs), allocated := allocated st + 1\<rparr>)"

definition str_split :: "pystr \<Rightarrow> machine \<Rightarrow> nat \<times> machine" where
  "str_split s st = new_list (split s) st"

definition str_join :: "pystr \<Rightarrow> nat \<Rightarrow> machine \<Rightarrow> pystr" where
  "str_join sep r st = join sep (lists st r)"

text \<open>
  The body of \<open>gen_query_url\<close>, statement by statement. The assignment
  \<open>terms = terms.split()\<close> binds the local name \<open>terms\<close> to the new list; the name of
  the caller is not touched. The \<open>return\<close> statement builds the list of the four parts
  and joins it. The body names no global but the builtins \<open>isinstance\<close> and \<open>str\<close>, and
  calls nothing that opens a session or sends a request.
\<close>

definition exec_gen_query_url :: "pystr \<Rightarrow> terms_obj \<Rightarrow> int \<Rightarrow> machine \<Rightarrow> pystr \<times> machine" where
  "exec_gen_query_url url terms max_results st =
     (let (terms', st1) = (case terms of StrObj s \<Rightarrow> str_split s st | ListObj r \<Rightarrow> (r, st));
          (parts, st2) = new_list [url,
                                   lit ''query='',
                                   str_join (lit ''%20'') terms' st1,
                                   lit ''&maxResults='' @ str_int max_results] st1
      in (str_join [] parts st2, st2))"

section \<open>Examples\<close>

text \<open>
  An endpoint for examples: it answers the URLs of a table, every time in the same way,
  and refuses the connection for any other.
\<close>

definition mock_endpoint :: "(pystr \<times> (error + response)) list \<Rightarrow> session" where
  "mock_endpoint table k url = (case map_of table url of None \<Rightarrow> Inl ClientError | Some r \<Rightarrow> r)"

text \<open>
  Two endpoints and a world for examples. \<open>endpoint_ok\<close> answers three queries with the
  bodies \<open>{"results": [1]}\<close>, \<open>{"results": [2, 3]}\<close> and \<open>{"results": [4]}\<close>;
  \<open>endpoint_bad\<close> answers the first with the body \<open>{}\<close> and lets the third time out.
\<close>

definition world0 :: world where
  "world0 = \<lparr>sessions_opened = 0, sessions_closed = 0, get_calls = []\<rparr>"

definition body_of :: "pyval list \<Rightarrow> error + response" where
  "body_of rs = Inr (Response (Inr (PDict [(lit ''results'', PList rs)])))"

definition endpoint_ok :: session where
  "endpoint_ok = mock_endpoint
     [(lit ''q1'', body_of [PInt 1]),
      (lit ''q2'', body_of [PInt 2, PInt 3]),
      (lit ''q3'', body_of [PInt 4])]"

definition endpoint_bad :: session where
  "endpoint_bad = mock_endpoint
     [(lit ''q1'', Inr (Response (Inr (PDict [])))),
      (lit ''q2'', body_of [PInt 2, PInt 3]),
      (lit ''q3'', Inl TimeoutError)]"

text \<open>
  \<open>endpoint_odd\<close> answers with the bodies \<open>{"results": null}\<close> and
  \<open>{"results": {"a": 1}}\<close>. \<open>machine0\<close> has one list, \<open>["cats", "ai"]\<close>, at address 0.
\<close>

definition endpoint_odd :: session where
  "endpoint_odd = mock_endpoint
     [(lit ''q1'', Inr (Response (Inr (PDict [(lit ''results'', PNone)])))),
      (lit ''q2'', Inr (Response (Inr (PDict [(lit ''results'', PDict [(lit ''a'', PInt 1)])]))))]"

definition machine0 :: machine where
  "machine0 = \<lparr>io = world0, lists = (\<lambda>a. [])(0 := [lit ''cats'', lit ''ai'']), allocated = 1\<rparr>"

section \<open>Facts about the string functions\<close>

lemma join_empty_sep: "join [] xs = concat xs"
  by (induction "[]::pystr" xs rule: join.induct) simp_all

lemma join_append_Cons:
  "join sep (xs @ t # ys) =
     join sep xs @ (if xs = [] then [] else sep) @ t @ (if ys = [] then [] else sep) @ join sep ys"
proof (induction sep xs rule: join.induct)
  case (1 sep)
  then show ?case by (cases ys) simp_all
next
  case (2 sep x)
  then show ?case by (cases ys) simp_all
next
  case (3 sep x y zs)
  then show ?case by simp
qed

lemma digits_nonempty: "digits n \<noteq> []"
  by (subst digits.simps) simp

text \<open>The rendering reads back as the number, has decimal digits only and no leading zero.\<close>

lemma digits_value_digits: "digits_value (digits n) = n"
proof (induction n rule: digits.induct)
  case (1 n)
  show ?case
  proof (cases "n < 10")
    case True
    then show ?thesis by (simp add: digits.simps [of n] digits_value_def)
  next
    case False
    with 1 show ?thesis
      by (simp add: digits.simps [of n] digits_value_def)
  qed
qed

lemma digits_range: "\<forall>d\<in>set (digits n). 48 \<le> d \<and> d \<le> 57"
proof (induction n rule: digits.induct)
  case (1 n)
  show ?case
  proof (cases "n < 10")
    case True
    then show ?thesis by (simp add: digits.simps [of n])
  next
    case False
    with 1 show ?thesis
      by (simp add: digits.simps [of n])
  qed
qed

lemma hd_digits: "0 < n \<Longrightarrow> hd (digits n) \<noteq> 48"
proof (induction n rule: digits.induct)
  case (1 n)
  show ?case
  proof (cases "n < 10")
    case True
    with 1 show ?thesis by (simp add: digits.simps [of n])
  next
    case False
    then have "0 < n div 10" by simp
    then show ?thesis using 1 False digits_nonempty [of "n div 10"]
      by (simp add: digits.simps [of n])
  qed
qed

lemma split_Nil: "dropWhile isspace s = [] \<Longrightarrow> split s = []"
  by (subst split.simps) (simp only: list.case)

lemma split_Cons:
  "dropWhile isspace s = c # cs \<Longrightarrow>
   split s =
     takeWhile (\<lambda>x. \<not> isspace x) (c # cs) # split (dropWhile (\<lambda>x. \<not> isspace x) (c # cs))"
  by (subst split.simps) (simp only: list.case)

lemma split_whitespace_only:
  assumes "\<forall>c\<in>set s. isspace c"
  shows "split s = []"
proof -
  have "dropWhile isspace s = []"
    using assms by simp
  then show ?thesis by (rule split_Nil)
qed

text \<open>Every word that \<open>split\<close> cuts is non-empty and free of white space.\<close>

lemma split_words:
  "w \<in> set (split s) \<Longrightarrow> w \<noteq> [] \<and> (\<forall>c\<in>set w. \<not> isspace c)"
proof (induction s rule: split.induct)
  case (1 s)
  show ?case
  proof (cases "dropWhile isspace s")
    case Nil
    with "1.prems" show ?thesis by (simp add: split_Nil)
  next
    case (Cons c cs)
    have c: "\<not> isspace c"
      using hd_dropWhile [of isspace s] Cons by simp
    have w: "w = takeWhile (\<lambda>x. \<not> isspace x) (c # cs) \<or>
        w \<in> set (split (dropWhile (\<lambda>x. \<not> isspace x) (c # cs)))"
      using "1.prems" unfolding split_Cons [OF Cons] by simp
    show ?thesis
    proof (cases "w = takeWhile (\<lambda>x. \<not> isspace x) (c # cs)")
      case True
      have "\<forall>x\<in>set (takeWhile (\<lambda>x. \<not> isspace x) (c # cs)). \<not> isspace x"
        by (blast dest: set_takeWhileD)
      moreover have "takeWhile (\<lambda>x. \<not> isspace x) (c # cs) \<noteq> []"
        using c by simp
      ultimately show ?thesis unfolding True by blast
    next
      case False
      with w have "w \<in> set (split (dropWhile (\<lambda>x. \<not> isspace x) (c # cs)))"
        by blast
      then show ?thesis by (rule "1.IH" [OF Cons])
    qed
  qed
qed

lemma filter_takeWhile_isspace: "filter (\<lambda>c. \<not> isspace c) (takeWhile isspace s) = []"
  by (induction s) simp_all

lemma filter_takeWhile_word:
  "filter (\<lambda>c. \<not> isspace c) (takeWhile (\<lambda>x. \<not> isspace x) s) = takeWhile (\<lambda>x. \<not> isspace x) s"
  by (induction s) simp_all

text \<open>The words, one after the other, are the string without its white space.\<close>

lemma concat_split: "concat (split s) = filter (\<lambda>c. \<not> isspace c) s"
proof (induction s rule: split.induct)
  case (1 s)
  have "filter (\<lambda>c. \<not> isspace c) s =
      filter (\<lambda>c. \<not> isspace c) (takeWhile isspace s @ dropWhile isspace s)"
    by simp
  also have "\<dots> = filter (\<lambda>c. \<not> isspace c) (dropWhile isspace s)"
    by (simp only: filter_append filter_takeWhile_isspace append_Nil)
  finally have s: "filter (\<lambda>c. \<not> isspace c) s = filter (\<lambda>c. \<not> isspace c) (dropWhile isspace s)" .
  show ?case
  proof (cases "dropWhile isspace s")
    case Nil
    then show ?thesis using s by (simp add: split_Nil)
  next
    case (Cons c cs)
    let ?d = "c # cs"
    have "filter (\<lambda>c. \<not> isspace c) ?d =
        filter (\<lambda>c. \<not> isspace c)
          (takeWhile (\<lambda>x. \<not> isspace x) ?d @ dropWhile (\<lambda>x. \<not> isspace x) ?d)"
      by (simp only: takeWhile_dropWhile_id)
    also have "\<dots> = takeWhile (\<lambda>x. \<not> isspace x) ?d @
        filter (\<lambda>c. \<not> isspace c) (dropWhile (\<lambda>x. \<not> isspace x) ?d)"
      by (simp only: filter_append filter_takeWhile_word)
    finally have d: "filter (\<lambda>c. \<not> isspace c) ?d =
        takeWhile (\<lambda>x. \<not> isspace x) ?d @
        filter (\<lambda>c. \<not> isspace c) (dropWhile (\<lambda>x. \<not> isspace x) ?d)" .
    have "concat (split s) = takeWhile (\<lambda>x. \<not> isspace x) ?d @
        concat (split (dropWhile (\<lambda>x. \<not> isspace x) ?d))"
      by (simp only: split_Cons [OF Cons] concat.simps)
    also have "\<dots> = filter (\<lambda>c. \<not> isspace c) ?d"
      by (simp only: "1.IH" [OF Cons] d)
    finally show ?thesis
      by (simp only: s Cons)
  qed
qed

lemma gen_query_url_Seq:
  "gen_query_url E (Seq T) M =
     E @ lit ''query='' @ join (lit ''%20'') T @ lit ''&maxResults='' @ str_int M"
  by (simp add: gen_query_url_def)

section \<open>The query builder: results\<close>

text \<open>
  Claim C3. For every base endpoint \<open>E\<close>, every sequence of terms \<open>T\<close> and every
  positive \<open>M\<close>, \<open>gen_query_url\<close> returns exactly \<open>E\<close>, then \<open>query=\<close>, then the terms of
  \<open>T\<close> in their order with \<open>%20\<close> between neighbours, then \<open>&maxResults=\<close>, then the
  decimal rendering of \<open>M\<close>: digits only, no leading zero, reading back as \<open>M\<close>. The
  equation holds for every integer \<open>M\<close>. In particular the call with \<open>https://x/?\<close>, the
  terms just, bought, a, house and 100 returns
  \<open>https://x/?query=just%20bought%20a%20house&maxResults=100\<close>.
\<close>

theorem gen_query_url_format:
  "gen_query_url E (Seq T) M =
     E @ lit ''query='' @ join (lit ''%20'') T @ lit ''&maxResults='' @ str_int M \<and>
   (0 < M \<longrightarrow> str_int M = digits (nat M) \<and> int (digits_value (str_int M)) = M \<and>
      (\<forall>d\<in>set (str_int M). 48 \<le> d \<and> d \<le> 57) \<and> hd (str_int M) \<noteq> 48) \<and>
   gen_query_url (lit ''https://x/?'') (Seq [lit ''just'', lit ''bought'', lit ''a'', lit ''house'']) 100 =
     lit ''https://x/?query=just%20bought%20a%20house&maxResults=100''"
proof (intro conjI impI)
  show "gen_query_url E (Seq T) M =
      E @ lit ''query='' @ join (lit ''%20'') T @ lit ''&maxResults='' @ str_int M"
    by (rule gen_query_url_Seq)
next
  assume M: "0 < M"
  then show s: "str_int M = digits (nat M)" by (simp add: str_int_def)
  show "int (digits_value (str_int M)) = M"
    using M by (simp add: s digits_value_digits)
  show "\<forall>d\<in>set (str_int M). 48 \<le> d \<and> d \<le> 57"
    unfolding s by (rule digits_range)
  show "hd (str_int M) \<noteq> 48"
    unfolding s using M by (intro hd_digits) simp
next
  show "gen_query_url (lit ''https://x/?'') (Seq [lit ''just'', lit ''bought'', lit ''a'', lit ''house'']) 100 =
     lit ''https://x/?query=just%20bought%20a%20house&maxResults=100''"
    by (simp add: gen_query_url_def lit_def str_int_def digits.simps)
qed

theorem gen_query_url_format_witness:
  "(0::int) < 7 \<and>
   gen_query_url (lit ''u?'') (Seq [lit ''cats'', lit ''ai'']) 7 = lit ''u?query=cats%20ai&maxResults=7'' \<and>
   str_int 7 = lit ''7'' \<and> digits_value (str_int 7) = 7"
proof -
  have M: "(0::int) < 7" by simp
  have "str_int 7 = lit ''7''"
    by (simp add: str_int_def digits.simps lit_def)
  moreover have "join (lit ''%20'') [lit ''cats'', lit ''ai''] = lit ''cats%20ai''"
    by (simp add: lit_def)
  ultimately show ?thesis
    using gen_query_url_format [of "lit ''u?''" "[lit ''cats'', lit ''ai'']" 7] M
    by (simp add: lit_def digits_value_def)
qed

text \<open>
  Claim C7. For every base endpoint \<open>E\<close>, every string \<open>S\<close> and every \<open>M\<close>, the call with
  the string \<open>S\<close> returns what the call with the sequence \<open>split S\<close> returns, where
  \<open>split S\<close> are the words of \<open>S\<close> between its runs of white space: each is non-empty and
  free of white space, and together they are \<open>S\<close> without its white space.
\<close>

theorem gen_query_url_string_terms:
  "gen_query_url E (Str S) M = gen_query_url E (Seq (split S)) M \<and>
   (\<forall>w\<in>set (split S). w \<noteq> [] \<and> (\<forall>c\<in>set w. \<not> isspace c)) \<and>
   concat (split S) = filter (\<lambda>c. \<not> isspace c) S"
proof -
  have "gen_query_url E (Str S) M = gen_query_url E (Seq (split S)) M"
    by (simp add: gen_query_url_def)
  moreover have "\<forall>w\<in>set (split S). w \<noteq> [] \<and> (\<forall>c\<in>set w. \<not> isspace c)"
    using split_words by blast
  moreover have "concat (split S) = filter (\<lambda>c. \<not> isspace c) S"
    by (rule concat_split)
  ultimately show ?thesis by blast
qed

theorem gen_query_url_string_terms_witness:
  "split (lit ''  just  bought a house '') = [lit ''just'', lit ''bought'', lit ''a'', lit ''house''] \<and>
   gen_query_url (lit ''https://x/?'') (Str (lit ''  just  bought a house '')) 100 =
     lit ''https://x/?query=just%20bought%20a%20house&maxResults=100''"
proof -
  have sp: "split (lit ''  just  bought a house '') =
      [lit ''just'', lit ''bought'', lit ''a'', lit ''house'']"
    by (simp add: split.simps lit_def isspace_def)
  have "gen_query_url (lit ''https://x/?'') (Seq [lit ''just'', lit ''bought'', lit ''a'', lit ''house'']) 100 =
      lit ''https://x/?query=just%20bought%20a%20house&maxResults=100''"
    by (simp add: gen_query_url_def lit_def str_int_def digits.simps)
  then show ?thesis
    using gen_query_url_string_terms [of "lit ''https://x/?''" "lit ''  just  bought a house ''" 100]
    by (simp add: sp)
qed

text \<open>
  Claim C8. \<open>gen_query_url\<close> is a pure, deterministic function. A call returns the
  string that the values of its arguments determine; it leaves the world of sessions
  and network calls as it is, and it changes no list that was there before the call,
  the list it was given among them (what it builds, it builds in new objects). So two
  calls with the same base endpoint, the same terms and the same \<open>max_results\<close> return
  the same string, whatever the heaps and worlds they run in and wherever the terms
  lie in them.
\<close>

theorem gen_query_url_pure:
  "fst (exec_gen_query_url url terms max_results st) =
     gen_query_url url (terms_value st terms) max_results \<and>
   io (snd (exec_gen_query_url url terms max_results st)) = io st \<and>
   (\<forall>a<allocated st. lists (snd (exec_gen_query_url url terms max_results st)) a = lists st a) \<and>
   allocated st \<le> allocated (snd (exec_gen_query_url url terms max_results st)) \<and>
   (terms_value st terms = terms_value st' terms' \<longrightarrow>
      fst (exec_gen_query_url url terms max_results st) =
      fst (exec_gen_query_url url terms' max_results st'))"
proof -
  have result: "fst (exec_gen_query_url u t m s) = gen_query_url u (terms_value s t) m" for u t m s
    by (cases t)
      (simp_all add: exec_gen_query_url_def str_split_def str_join_def new_list_def
        terms_value_def gen_query_url_def Let_def)
  have frame: "io (snd (exec_gen_query_url url terms max_results st)) = io st \<and>
      (\<forall>a<allocated st. lists (snd (exec_gen_query_url url terms max_results st)) a = lists st a) \<and>
      allocated st \<le> allocated (snd (exec_gen_query_url url terms max_results st))"
    by (cases terms)
      (simp_all add: exec_gen_query_url_def str_split_def str_join_def new_list_def Let_def)
  show ?thesis
    using frame by (simp add: result)
qed

theorem gen_query_url_pure_witness:
  "fst (exec_gen_query_url (lit ''u?'') (ListObj 0) 7 machine0) =
     lit ''u?query=cats%20ai&maxResults=7'' \<and>
   lists (snd (exec_gen_query_url (lit ''u?'') (ListObj 0) 7 machine0)) 0 = [lit ''cats'', lit ''ai''] \<and>
   io (snd (exec_gen_query_url (lit ''u?'') (ListObj 0) 7 machine0)) = world0 \<and>
   fst (exec_gen_query_url (lit ''u?'') (StrObj (lit ''cats  ai'')) 7
          (machine0\<lparr>io := world0\<lparr>get_calls := [lit ''q1'']\<rparr>, allocated := 5\<rparr>)) =
     lit ''u?query=cats%20ai&maxResults=7''"
proof -
  let ?st' = "machine0\<lparr>io := world0\<lparr>get_calls := [lit ''q1'']\<rparr>, allocated := 5\<rparr>"
  have sp: "split (lit ''cats  ai'') = [lit ''cats'', lit ''ai'']"
    by (simp add: split.simps lit_def isspace_def)
  have v: "terms_value machine0 (ListObj 0) = Seq [lit ''cats'', lit ''ai'']"
    by (simp add: terms_value_def machine0_def)
  have v': "terms_value ?st' (StrObj (lit ''cats  ai'')) = Str (lit ''cats  ai'')"
    by (simp add: terms_value_def)
  have g: "gen_query_url (lit ''u?'') (Seq [lit ''cats'', lit ''ai'']) 7 =
      lit ''u?query=cats%20ai&maxResults=7''"
    by (simp add: gen_query_url_def lit_def str_int_def digits.simps)
  have g': "gen_query_url (lit ''u?'') (Str (lit ''cats  ai'')) 7 =
      lit ''u?query=cats%20ai&maxResults=7''"
    using g by (simp add: gen_query_url_def sp)
  have a: "(0::nat) < allocated machine0" and l: "lists machine0 0 = [lit ''cats'', lit ''ai'']"
    and i: "io machine0 = world0"
    by (simp_all add: machine0_def)
  note t = gen_query_url_pure [of "lit ''u?''" "ListObj 0" 7 machine0]
  note t' = gen_query_url_pure [of "lit ''u?''" "StrObj (lit ''cats  ai'')" 7 ?st']
  have 1: "fst (exec_gen_query_url (lit ''u?'') (ListObj 0) 7 machine0) =
      lit ''u?query=cats%20ai&maxResults=7''"
    using t v g by simp
  have 2: "lists (snd (exec_gen_query_url (lit ''u?'') (ListObj 0) 7 machine0)) 0 =
      [lit ''cats'', lit ''ai'']"
    using t a l by simp
  have 3: "io (snd (exec_gen_query_url (lit ''u?'') (ListObj 0) 7 machine0)) = world0"
    using t i by simp
  have 4: "fst (exec_gen_query_url (lit ''u?'') (StrObj (lit ''cats  ai'')) 7 ?st') =
      lit ''u?query=cats%20ai&maxResults=7''"
    using t' v' g' by simp
  show ?thesis
    by (intro conjI) (fact 1 2 3 4)+
qed

text \<open>
  Claim C9. \<open>gen_query_url\<close> puts every term into the result as it is: a term \<open>t\<close> of the
  sequence stands in the result unchanged, between the terms before it and the terms
  behind it, and the only thing added between two terms is \<open>%20\<close>. Nothing is
  percent-encoded, so the characters of a term stay as they are: the terms \<open>a b\<close>,
  \<open>c&d\<close> and \<open>100%\<close> give a query with a literal space, \<open>&\<close> and \<open>%\<close>.
\<close>

theorem gen_query_url_terms_verbatim:
  "gen_query_url E (Seq (xs @ t # ys)) M =
     E @ lit ''query='' @ join (lit ''%20'') xs @ (if xs = [] then [] else lit ''%20'') @ t @
     (if ys = [] then [] else lit ''%20'') @ join (lit ''%20'') ys @ lit ''&maxResults='' @ str_int M \<and>
   gen_query_url (lit ''https://x/?'') (Seq [lit ''a b'', lit ''c&d'', lit ''100%'']) 5 =
     lit ''https://x/?query=a b%20c&d%20100%&maxResults=5''"
proof
  show "gen_query_url E (Seq (xs @ t # ys)) M =
     E @ lit ''query='' @ join (lit ''%20'') xs @ (if xs = [] then [] else lit ''%20'') @ t @
     (if ys = [] then [] else lit ''%20'') @ join (lit ''%20'') ys @ lit ''&maxResults='' @ str_int M"
    by (simp only: gen_query_url_Seq join_append_Cons append_assoc)
  show "gen_query_url (lit ''https://x/?'') (Seq [lit ''a b'', lit ''c&d'', lit ''100%'']) 5 =
     lit ''https://x/?query=a b%20c&d%20100%&maxResults=5''"
    by (simp add: gen_query_url_def lit_def str_int_def digits.simps)
qed

text \<open>
  Claim C10. For every base endpoint \<open>E\<close> and every \<open>M\<close>, the call with the empty sequence
  of terms, and the call with a string of white space only, return \<open>E\<close>, then
  \<open>query=&maxResults=\<close>, then the rendering of \<open>M\<close>, with nothing between \<open>query=\<close> and
  \<open>&\<close>. The function has no branch that raises.
\<close>

theorem gen_query_url_no_terms:
  "gen_query_url E (Seq []) M = E @ lit ''query=&maxResults='' @ str_int M \<and>
   ((\<forall>c\<in>set S. isspace c) \<longrightarrow>
      gen_query_url E (Str S) M = E @ lit ''query=&maxResults='' @ str_int M)"
  by (simp add: gen_query_url_def split_whitespace_only lit_def)

theorem gen_query_url_no_terms_witness:
  "isspace 32 \<and> isspace 9 \<and> isspace 10 \<and> isspace 8195 \<and>
   gen_query_url (lit ''u?'') (Str [32, 9, 10, 8195]) 5 = lit ''u?query=&maxResults=5'' \<and>
   gen_query_url (lit ''u?'') (Seq []) 5 = lit ''u?query=&maxResults=5''"
proof -
  have ws: "\<forall>c\<in>set [32, 9, 10, 8195]. isspace c"
    by (simp add: isspace_def)
  have "str_int 5 = lit ''5''"
    by (simp add: str_int_def digits.simps lit_def)
  then show ?thesis
    using gen_query_url_no_terms [of "lit ''u?''" 5 "[32, 9, 10, 8195]"] ws
    by (simp add: lit_def)
qed

section \<open>Facts about the event loop\<close>

text \<open>Once \<open>outer\<close> is done, later arrivals change nothing.\<close>

lemma run_events_done [simp]: "outer g \<noteq> None \<Longrightarrow> run_events task arrivals g = g"
  by (cases arrivals) auto

lemma map_filter_all_Some:
  assumes "length rs = length vs" and "\<forall>i<length vs. rs ! i = Some (vs ! i)"
  shows "List.map_filter (\<lambda>r. r) rs = vs"
proof -
  have "rs = map Some vs"
    using assms by (intro nth_equalityI) auto
  then show ?thesis
    by (simp add: List.map_filter_def comp_def)
qed

lemma run_events_all_ok:
  assumes "\<forall>i\<in>set arrivals. task i = Inr (vs ! i)"
    and "distinct arrivals" and "set arrivals \<subseteq> {..<length vs}"
    and "length (results g) = length vs"
    and "nfinished g + length arrivals = length vs"
    and "\<forall>i<length vs. results g ! i = (if i \<in> set arrivals then None else Some (vs ! i))"
    and "outer g = None" and "arrivals \<noteq> []"
  shows "outer (run_events task arrivals g) = Some (Inr vs)"
  using assms
proof (induction arrivals arbitrary: g)
  case Nil
  then show ?case by simp
next
  case (Cons i rest)
  let ?g1 = "g\<lparr>results := (results g)[i := Some (vs ! i)], nfinished := nfinished g + 1\<rparr>"
  have i: "i < length vs" "results g ! i = None" "task i = Inr (vs ! i)" "i \<notin> set rest"
    using Cons.prems by auto
  have slots: "\<forall>j<length vs. results ?g1 ! j = (if j \<in> set rest then None else Some (vs ! j))"
    using Cons.prems i by (auto simp: nth_list_update)
  show ?case
  proof (cases "rest = []")
    case True
    then have "nfinished ?g1 = length (results ?g1)"
      using Cons.prems by simp
    moreover have "List.map_filter (\<lambda>r. r) (results ?g1) = vs"
      using slots True Cons.prems(4) by (intro map_filter_all_Some) auto
    ultimately have "outer (done_callback i (task i) g) = Some (Inr vs)"
      using Cons.prems(7) i by (simp add: done_callback_def Let_def)
    then show ?thesis
      using Cons.prems i True by simp
  next
    case False
    then have "nfinished ?g1 \<noteq> length (results ?g1)"
      using Cons.prems by (cases rest) auto
    then have dc: "done_callback i (task i) g = ?g1"
      using Cons.prems(7) i by (simp add: done_callback_def Let_def)
    have "outer (run_events task rest ?g1) = Some (Inr vs)"
    proof (rule Cons.IH)
      show "\<forall>i\<in>set rest. task i = Inr (vs ! i)" using Cons.prems(1) by simp
      show "distinct rest" using Cons.prems(2) by simp
      show "set rest \<subseteq> {..<length vs}" using Cons.prems(3) by simp
      show "length (results ?g1) = length vs" using Cons.prems(4) by simp
      show "nfinished ?g1 + length rest = length vs" using Cons.prems(5) by simp
      show "\<forall>j<length vs. results ?g1 ! j = (if j \<in> set rest then None else Some (vs ! j))"
        by (rule slots)
      show "outer ?g1 = None" using Cons.prems(7) by simp
      show "rest \<noteq> []" by (rule False)
    qed
    then show ?thesis
      using Cons.prems i dc by simp
  qed
qed

lemma run_events_first_failure:
  assumes "\<forall>j\<in>set pre. \<not> isl (task j)" and "task i = Inl e"
    and "distinct (pre @ i # post)" and "set (pre @ i # post) \<subseteq> {..<length (results g)}"
    and "nfinished g + length (pre @ i # post) \<le> length (results g)"
    and "\<forall>j\<in>set (pre @ i # post). results g ! j = None"
    and "outer g = None"
  shows "outer (run_events task (pre @ i # post) g) = Some (Inl e)"
  using assms
proof (induction pre arbitrary: g)
  case Nil
  then show ?case by (simp add: done_callback_def)
next
  case (Cons j pre)
  obtain v where v: "task j = Inr v"
    using Cons.prems(1) by (cases "task j") auto
  let ?g1 = "g\<lparr>results := (results g)[j := Some v], nfinished := nfinished g + 1\<rparr>"
  have j: "j < length (results g)" "results g ! j = None" "j \<notin> set (pre @ i # post)"
    using Cons.prems by auto
  have "nfinished ?g1 \<noteq> length (results ?g1)"
    using Cons.prems(5) by simp
  then have dc: "done_callback j (task j) g = ?g1"
    using Cons.prems(7) v by (simp add: done_callback_def Let_def)
  have "\<forall>k\<in>set (pre @ i # post). results ?g1 ! k = None"
    using Cons.prems(6) j by (auto simp: nth_list_update)
  then have "outer (run_events task (pre @ i # post) ?g1) = Some (Inl e)"
  proof (intro Cons.IH)
    show "\<forall>j\<in>set pre. \<not> isl (task j)" using Cons.prems(1) by simp
    show "task i = Inl e" by (rule Cons.prems(2))
    show "distinct (pre @ i # post)" using Cons.prems(3) by simp
    show "set (pre @ i # post) \<subseteq> {..<length (results ?g1)}" using Cons.prems(4) by simp
    show "nfinished ?g1 + length (pre @ i # post) \<le> length (results ?g1)"
      using Cons.prems(5) by simp
    show "outer ?g1 = None" using Cons.prems(7) by simp
  qed
  then show ?case
    using Cons.prems(7) j dc by simp
qed

lemma gather_results [simp]: "results (gather n) = replicate n None"
  and gather_nfinished [simp]: "nfinished (gather n) = 0"
  and gather_outer [simp]: "outer (gather n) = (if n = 0 then Some (Inr []) else None)"
  by (simp_all add: gather_def)

lemma distinct_card_length:
  "distinct xs \<Longrightarrow> set xs = {..<n} \<Longrightarrow> length xs = n"
  using distinct_card [of xs] by simp

lemma gather_all_ok:
  assumes "\<forall>i<length vs. task i = Inr (vs ! i)"
    and "distinct arrivals" and "set arrivals = {..<length vs}"
  shows "outer (run_events task arrivals (gather (length vs))) = Some (Inr vs)"
proof (cases "vs = []")
  case True
  then show ?thesis by simp
next
  case False
  have len: "length arrivals = length vs"
    using assms(2,3) by (rule distinct_card_length)
  show ?thesis
  proof (rule run_events_all_ok)
    show "\<forall>i\<in>set arrivals. task i = Inr (vs ! i)" using assms(1,3) by simp
    show "distinct arrivals" by (rule assms(2))
    show "set arrivals \<subseteq> {..<length vs}" using assms(3) by simp
    show "length (results (gather (length vs))) = length vs" by simp
    show "nfinished (gather (length vs)) + length arrivals = length vs" using len by simp
    show "\<forall>i<length vs. results (gather (length vs)) ! i =
        (if i \<in> set arrivals then None else Some (vs ! i))" using assms(3) by simp
    show "outer (gather (length vs)) = None" using False by simp
    show "arrivals \<noteq> []" using len False by (cases arrivals) simp_all
  qed
qed

lemma gather_first_failure:
  assumes "distinct arrivals" and "set arrivals = {..<n}"
    and "find (\<lambda>i. isl (task i)) arrivals = Some i" and "task i = Inl e"
  shows "outer (run_events task arrivals (gather n)) = Some (Inl e)"
proof -
  from assms(3) obtain k where k: "k < length arrivals" "i = arrivals ! k"
    "\<forall>j<k. \<not> isl (task (arrivals ! j))"
    by (auto simp: find_Some_iff)
  define pre post where "pre = take k arrivals" and "post = drop (Suc k) arrivals"
  have decomp: "arrivals = pre @ i # post"
    using k by (simp add: pre_def post_def id_take_nth_drop)
  have pre: "\<forall>j\<in>set pre. \<not> isl (task j)"
    using k by (auto simp: pre_def in_set_conv_nth)
  have len: "length arrivals = n"
    using assms(1,2) by (rule distinct_card_length)
  have "n \<noteq> 0" using len k by auto
  then have "outer (run_events task (pre @ i # post) (gather n)) = Some (Inl e)"
  proof (intro run_events_first_failure)
    show "\<forall>j\<in>set pre. \<not> isl (task j)" by (rule pre)
    show "task i = Inl e" by (rule assms(4))
    show "distinct (pre @ i # post)" using assms(1) decomp by simp
    show "set (pre @ i # post) \<subseteq> {..<length (results (gather n))}"
      using assms(2) decomp by simp
    show "nfinished (gather n) + length (pre @ i # post) \<le> length (results (gather n))"
      using len decomp by simp
    show "\<forall>j\<in>set (pre @ i # post). results (gather n) ! j = None"
      using assms(2) decomp by auto
    show "outer (gather n) = None" using \<open>n \<noteq> 0\<close> by simp
  qed
  then show ?thesis by (simp add: decomp)
qed

lemma find_failure:
  assumes "set arrivals = {..<n}" and "i < n" and "isl (task i)"
  shows "\<exists>j e. find (\<lambda>i. isl (task i)) arrivals = Some j \<and> task j = Inl e \<and> j < n"
proof -
  have "\<exists>x\<in>set arrivals. isl (task x)" using assms by auto
  then have "find (\<lambda>i. isl (task i)) arrivals \<noteq> None"
    by (auto simp: find_None_iff)
  then obtain j where j: "find (\<lambda>i. isl (task i)) arrivals = Some j"
    by blast
  then have "isl (task j)" "j \<in> set arrivals"
    by (auto simp: find_Some_iff)
  then show ?thesis using j assms(1) by (cases "task j") auto
qed

lemma comprehension_Inr:
  "comprehension f xs = Inr ys \<Longrightarrow> length ys = length xs \<and> (\<forall>i<length xs. f (xs ! i) = Inr (ys ! i))"
proof (induction xs arbitrary: ys)
  case Nil
  then show ?case by simp
next
  case (Cons x xs)
  from Cons.prems obtain y ys' where y: "f x = Inr y" "comprehension f xs = Inr ys'" "ys = y # ys'"
    by (auto split: sum.splits)
  with Cons.IH [of ys'] show ?case
    by (auto simp: nth_Cons split: nat.splits)
qed

lemma comprehension_isl: "isl (comprehension f xs) \<longleftrightarrow> (\<exists>x\<in>set xs. isl (f x))"
  by (induction xs) (auto split: sum.splits)

lemma tasks_nth:
  assumes "map f queries = map Inr rss"
  shows "length rss = length queries" and "\<forall>i<length rss. map f queries ! i = Inr (rss ! i)"
proof -
  show "length rss = length queries"
    using arg_cong [OF assms, of length] by simp
  show "\<forall>i<length rss. map f queries ! i = Inr (rss ! i)"
    using assms by simp
qed

text \<open>Whatever the tasks finish with, \<open>outer\<close> is done when every task has finished.\<close>

lemma run_events_outer_done:
  assumes "distinct arrivals" and "set arrivals = {..<n}"
  shows "outer (run_events task arrivals (gather n)) \<noteq> None"
proof (cases "\<exists>i<n. isl (task i)")
  case True
  then obtain i where "i < n" "isl (task i)" by blast
  with find_failure [of arrivals n i task] assms(2) obtain j e
    where "find (\<lambda>i. isl (task i)) arrivals = Some j" "task j = Inl e" by blast
  with assms have "outer (run_events task arrivals (gather n)) = Some (Inl e)"
    by (intro gather_first_failure)
  then show ?thesis by simp
next
  case False
  define vs where "vs = map (\<lambda>i. projr (task i)) [0..<n]"
  have n: "length vs = n" by (simp add: vs_def)
  have "\<forall>i<length vs. task i = Inr (vs ! i)"
    using False by (simp add: vs_def)
  then have "outer (run_events task arrivals (gather (length vs))) = Some (Inr vs)"
    using assms n by (intro gather_all_ok) simp_all
  then show ?thesis by (simp add: n)
qed

section \<open>The fetchers: results\<close>

text \<open>
  Claim C6, as the code has it. When the response arrives and its body parses to a
  \<open>dict\<close>, \<open>fetch_tweets_fancy\<close> does not return the whole body. If the body has no
  field \<open>results\<close>, it fails with \<open>KeyError('results')\<close>. If the field is a list, it
  returns the tweets built from the elements of that list, one for each element and in
  their order, and it fails exactly when the tweet parser refuses one of them; if the
  field is a \<open>dict\<close> or a string, the tweets are built in the same way from its keys
  or its characters. If the field is \<open>null\<close>, a boolean or a number, it fails with
  \<open>TypeError\<close>. \<open>fetch_tweets_coroutine\<close> returns the whole parsed body in every one
  of these cases; the cell that calls it reads \<open>['results']\<close> from what it returns and
  builds the tweets, and what the cell gets is what \<open>fetch_tweets_fancy\<close> returns for
  the same response.
\<close>

theorem fetch_results_field:
  assumes "session k url = Inr response" and "session' 0 url = Inr response"
    and "json response = Inr (PDict kvs)"
  shows "fetch_tweets_fancy Tweet session k url =
           (case map_of kvs (lit ''results'') of
              None \<Rightarrow> Inl (KeyError (lit ''results''))
            | Some (PList rs) \<Rightarrow> comprehension Tweet rs
            | Some (PDict items) \<Rightarrow> comprehension Tweet (map (\<lambda>kv. PStr (fst kv)) items)
            | Some (PStr s) \<Rightarrow> comprehension Tweet (map (\<lambda>c. PStr [c]) s)
            | Some PNone \<Rightarrow> Inl TypeError
            | Some (PBool b) \<Rightarrow> Inl TypeError
            | Some (PInt n) \<Rightarrow> Inl TypeError
            | Some (PFloat x) \<Rightarrow> Inl TypeError) \<and>
         (\<forall>rs ts. comprehension Tweet rs = Inr ts \<longrightarrow>
            length ts = length rs \<and> (\<forall>i<length rs. Tweet (rs ! i) = Inr (ts ! i))) \<and>
         (\<forall>rs. isl (comprehension Tweet rs) \<longleftrightarrow> (\<exists>r\<in>set rs. isl (Tweet r))) \<and>
         fst (fetch_tweets_coroutine session' url w) = Inr (PDict kvs) \<and>
         fst (tweets Tweet session' url w) = fetch_tweets_fancy Tweet session k url"
proof -
  have a: "fetch_tweets_fancy Tweet session k url =
      (case map_of kvs (lit ''results'') of
         None \<Rightarrow> Inl (KeyError (lit ''results''))
       | Some (PList rs) \<Rightarrow> comprehension Tweet rs
       | Some (PDict items) \<Rightarrow> comprehension Tweet (map (\<lambda>kv. PStr (fst kv)) items)
       | Some (PStr s) \<Rightarrow> comprehension Tweet (map (\<lambda>c. PStr [c]) s)
       | Some PNone \<Rightarrow> Inl TypeError
       | Some (PBool b) \<Rightarrow> Inl TypeError
       | Some (PInt n) \<Rightarrow> Inl TypeError
       | Some (PFloat x) \<Rightarrow> Inl TypeError)"
    using assms(1,3)
    by (simp add: fetch_tweets_fancy_def split: option.splits pyval.splits)
  have b: "\<forall>rs ts. comprehension Tweet rs = Inr ts \<longrightarrow>
      length ts = length rs \<and> (\<forall>i<length rs. Tweet (rs ! i) = Inr (ts ! i))"
    using comprehension_Inr [of Tweet] by blast
  have c: "\<forall>rs. isl (comprehension Tweet rs) \<longleftrightarrow> (\<exists>r\<in>set rs. isl (Tweet r))"
    using comprehension_isl [of Tweet] by blast
  have d: "fst (fetch_tweets_coroutine session' url w) = Inr (PDict kvs)"
    using assms(2,3) by (simp add: fetch_tweets_coroutine_def Let_def)
  have e: "fst (tweets Tweet session' url w) = fetch_tweets_fancy Tweet session k url"
    using assms
    by (simp add: tweets_def fetch_tweets_coroutine_def fetch_tweets_fancy_def Let_def
        split: sum.splits)
  show ?thesis
    by (intro conjI) (rule a b c d e)+
qed

theorem fetch_results_field_witness:
  "fetch_tweets_fancy Inr endpoint_ok 1 (lit ''q2'') = Inr [PInt 2, PInt 3] \<and>
   fst (fetch_tweets_coroutine endpoint_ok (lit ''q2'') world0) =
     Inr (PDict [(lit ''results'', PList [PInt 2, PInt 3])]) \<and>
   fst (tweets Inr endpoint_ok (lit ''q2'') world0) = Inr [PInt 2, PInt 3] \<and>
   fetch_tweets_fancy Inr endpoint_bad 0 (lit ''q1'') = Inl (KeyError (lit ''results'')) \<and>
   fst (tweets Inr endpoint_bad (lit ''q1'') world0) = Inl (KeyError (lit ''results'')) \<and>
   fetch_tweets_fancy Inr endpoint_odd 0 (lit ''q1'') = Inl TypeError \<and>
   fetch_tweets_fancy Inr endpoint_odd 1 (lit ''q2'') = Inr [PStr (lit ''a'')]"
proof -
  have ok: "endpoint_ok k (lit ''q2'') =
      Inr (Response (Inr (PDict [(lit ''results'', PList [PInt 2, PInt 3])])))" for k
    by (simp add: endpoint_ok_def mock_endpoint_def body_of_def lit_def)
  have bad: "endpoint_bad k (lit ''q1'') = Inr (Response (Inr (PDict [])))" for k
    by (simp add: endpoint_bad_def mock_endpoint_def lit_def)
  have odd1: "endpoint_odd k (lit ''q1'') = Inr (Response (Inr (PDict [(lit ''results'', PNone)])))" for k
    by (simp add: endpoint_odd_def mock_endpoint_def lit_def)
  have odd2: "endpoint_odd k (lit ''q2'') =
      Inr (Response (Inr (PDict [(lit ''results'', PDict [(lit ''a'', PInt 1)])])))" for k
    by (simp add: endpoint_odd_def mock_endpoint_def lit_def)
  note t1 = fetch_results_field [where session = endpoint_ok and session' = endpoint_ok and k = 1
      and url = "lit ''q2''" and Tweet = Inr
      and kvs = "[(lit ''results'', PList [PInt 2, PInt 3])]" and w = world0, OF ok ok]
  note t2 = fetch_results_field [where session = endpoint_bad and session' = endpoint_bad
      and k = 0 and url = "lit ''q1''" and Tweet = Inr and kvs = "[]" and w = world0, OF bad bad]
  note t3 = fetch_results_field [where session = endpoint_odd and session' = endpoint_odd
      and k = 0 and url = "lit ''q1''" and Tweet = Inr
      and kvs = "[(lit ''results'', PNone)]" and w = world0, OF odd1 odd1]
  note t4 = fetch_results_field [where session = endpoint_odd and session' = endpoint_odd
      and k = 1 and url = "lit ''q2''" and Tweet = "Inr :: pyval \<Rightarrow> error + pyval"
      and kvs = "[(lit ''results'', PDict [(lit ''a'', PInt 1)])]" and w = world0, OF odd2 odd2]
  have 1: "fetch_tweets_fancy Inr endpoint_ok 1 (lit ''q2'') = Inr [PInt 2, PInt 3]"
    using t1 by simp
  have 2: "fst (fetch_tweets_coroutine endpoint_ok (lit ''q2'') world0) =
      Inr (PDict [(lit ''results'', PList [PInt 2, PInt 3])])"
    using t1 by simp
  have 3: "fst (tweets Inr endpoint_ok (lit ''q2'') world0) = Inr [PInt 2, PInt 3]"
    using t1 by simp
  have 4: "fetch_tweets_fancy Inr endpoint_bad 0 (lit ''q1'') = Inl (KeyError (lit ''results''))"
    using t2 by simp
  have 5: "fst (tweets Inr endpoint_bad (lit ''q1'') world0) = Inl (KeyError (lit ''results''))"
    using t2 by simp
  have 6: "fetch_tweets_fancy Inr endpoint_odd 0 (lit ''q1'') = Inl TypeError"
    using t3 by simp
  have 7: "fetch_tweets_fancy Inr endpoint_odd 1 (lit ''q2'') = Inr [PStr (lit ''a'')]"
    using t4 by simp
  show ?thesis
    by (intro conjI) (fact 1 2 3 4 5 6 7)+
qed

text \<open>
  Why C6 does not hold of every fetcher: for the body \<open>{"results": [2, 3]}\<close>
  \<open>fetch_tweets_coroutine\<close> returns the body, which is not the list \<open>[2, 3]\<close>, and for
  the body \<open>{}\<close> it returns \<open>{}\<close> and does not fail.
\<close>

theorem fetch_tweets_coroutine_counterexample:
  "fst (fetch_tweets_coroutine endpoint_ok (lit ''q2'') world0) =
     Inr (PDict [(lit ''results'', PList [PInt 2, PInt 3])]) \<and>
   PDict [(lit ''results'', PList [PInt 2, PInt 3])] \<noteq> PList [PInt 2, PInt 3] \<and>
   fst (fetch_tweets_coroutine endpoint_bad (lit ''q1'') world0) = Inr (PDict [])"
  by (simp add: fetch_tweets_coroutine_def endpoint_ok_def endpoint_bad_def mock_endpoint_def
      body_of_def lit_def Let_def)

section \<open>The dispatcher: results\<close>

text \<open>
  Claim C1, as the code has it. When every fetch succeeds, with \<open>rss\<close> the list of the
  result sets of the queries in the order of submission, then for every order in which
  the tasks finish \<open>collect_queries\<close> returns \<open>rss\<close> itself: one list for each query, in
  the order of the queries. The concatenation of these lists, in the same order, is what
  the calling cell makes of it with \<open>chain.from_iterable\<close>.
\<close>

theorem collect_queries_submission_order:
  assumes "map (\<lambda>k. fetch_tweets_fancy Tweet session k (queries ! k)) [0..<length queries] =
      map Inr rss"
    and "distinct arrivals" and "set arrivals = {..<length queries}"
  shows "fst (collect_queries Tweet session arrivals queries w) = Some (Inr rss) \<and>
         length rss = length queries \<and>
         res (fst (collect_queries Tweet session arrivals queries w)) = Some (Inr (concat rss))"
proof -
  let ?tasks = "map (\<lambda>k. fetch_tweets_fancy Tweet session k (queries ! k)) [0..<length queries]"
  have len: "length rss = length queries"
    using tasks_nth(1) [OF assms(1)] by simp
  have "outer (run_events (\<lambda>i. ?tasks ! i) arrivals (gather (length rss))) = Some (Inr rss)"
  proof (rule gather_all_ok)
    show "\<forall>i<length rss. ?tasks ! i = Inr (rss ! i)"
      using assms(1) by (rule tasks_nth(2))
    show "distinct arrivals" by (rule assms(2))
    show "set arrivals = {..<length rss}" using assms(3) len by simp
  qed
  then have "fst (collect_queries Tweet session arrivals queries w) = Some (Inr rss)"
    using len by (simp add: collect_queries_def Let_def)
  then show ?thesis
    using len by (simp add: res_def)
qed

theorem collect_queries_submission_order_witness:
  "map (\<lambda>k. fetch_tweets_fancy Inr endpoint_ok k ([lit ''q1'', lit ''q2'', lit ''q3''] ! k)) [0..<3] =
     map Inr [[PInt 1], [PInt 2, PInt 3], [PInt 4]] \<and>
   distinct [2, 0, 1::nat] \<and> set [2, 0, 1::nat] = {..<3} \<and>
   fst (collect_queries Inr endpoint_ok [2, 0, 1] [lit ''q1'', lit ''q2'', lit ''q3''] world0) =
     Some (Inr [[PInt 1], [PInt 2, PInt 3], [PInt 4]]) \<and>
   res (fst (collect_queries Inr endpoint_ok [2, 0, 1] [lit ''q1'', lit ''q2'', lit ''q3''] world0)) =
     Some (Inr [PInt 1, PInt 2, PInt 3, PInt 4])"
proof -
  let ?qs = "[lit ''q1'', lit ''q2'', lit ''q3'']"
  have upt3: "[0..<3] = [0, 1, 2]" by code_simp
  have len: "length ?qs = 3" by simp
  have fetches: "map (\<lambda>k. fetch_tweets_fancy Inr endpoint_ok k (?qs ! k)) [0..<3] =
      map Inr [[PInt 1], [PInt 2, PInt 3], [PInt 4]]"
    by (simp add: upt3 fetch_tweets_fancy_def endpoint_ok_def mock_endpoint_def body_of_def lit_def)
  have d: "distinct [2, 0, 1::nat]" by simp
  have s: "set [2, 0, 1::nat] = {..<3}" by code_simp
  from collect_queries_submission_order [of Inr endpoint_ok ?qs _ "[2, 0, 1]" world0,
      unfolded len, OF fetches d s]
  have r: "fst (collect_queries Inr endpoint_ok [2, 0, 1] ?qs world0) =
      Some (Inr [[PInt 1], [PInt 2, PInt 3], [PInt 4]])"
    and c: "res (fst (collect_queries Inr endpoint_ok [2, 0, 1] ?qs world0)) =
      Some (Inr (concat [[PInt 1], [PInt 2, PInt 3], [PInt 4]]))"
    by blast+
  have c': "res (fst (collect_queries Inr endpoint_ok [2, 0, 1] ?qs world0)) =
      Some (Inr [PInt 1, PInt 2, PInt 3, PInt 4])"
    using c by simp
  show ?thesis
    by (intro conjI) (fact fetches d s r c')+
qed

text \<open>
  Why C1 does not hold of \<open>collect_queries\<close> as stated: for two queries with the result
  sets \<open>[1]\<close> and \<open>[2, 3]\<close> it returns \<open>[[1], [2, 3]]\<close>, which is not the concatenation
  \<open>[1, 2, 3]\<close>.
\<close>

theorem collect_queries_nested_counterexample:
  "fst (collect_queries Inr endpoint_ok [1, 0] [lit ''q1'', lit ''q2''] world0) =
     Some (Inr [[PInt 1], [PInt 2, PInt 3]]) \<and>
   PList (map PList [[PInt 1], [PInt 2, PInt 3]]) \<noteq> PList (concat [[PInt 1], [PInt 2, PInt 3]])"
proof -
  have upt2: "[0..<2] = [0, 1]" by code_simp
  show ?thesis
    by (simp add: upt2 collect_queries_def fetch_tweets_fancy_def endpoint_ok_def mock_endpoint_def
        body_of_def lit_def gather_def done_callback_def List.map_filter_def Let_def)
qed

text \<open>
  Claim C2. When at least one fetch of the batch fails, the call fails as a whole, for
  every order in which the tasks finish: among the failing tasks the one that finishes
  first gives its exception to the caller, no list of results is returned, and the
  calling cell gets the same exception. This holds for batches of every size, those of
  two queries and more among them.
\<close>

theorem collect_queries_first_failure:
  assumes "distinct arrivals" and "set arrivals = {..<length queries}"
    and "\<exists>k<length queries. isl (fetch_tweets_fancy Tweet session k (queries ! k))"
  shows "\<exists>i e. find (\<lambda>k. isl (fetch_tweets_fancy Tweet session k (queries ! k))) arrivals = Some i \<and>
           fetch_tweets_fancy Tweet session i (queries ! i) = Inl e \<and>
           collect_queries Tweet session arrivals queries w =
             (Some (Inl e),
              w\<lparr>sessions_opened := sessions_opened w + 1,
                get_calls := get_calls w @ queries,
                sessions_closed := sessions_closed w + 1\<rparr>) \<and>
           res (fst (collect_queries Tweet session arrivals queries w)) = Some (Inl e)"
proof -
  let ?fetch = "\<lambda>k. fetch_tweets_fancy Tweet session k (queries ! k)"
  let ?tasks = "map ?fetch [0..<length queries]"
  let ?task = "\<lambda>i. ?tasks ! i"
  have task: "?task i = ?fetch i" if "i < length queries" for i
    using that by simp
  from assms(3) obtain k where k: "k < length queries" "isl (?task k)"
    using task by auto
  from find_failure [of arrivals "length queries" k ?task] assms(2) k obtain i e
    where i: "find (\<lambda>i. isl (?task i)) arrivals = Some i" "?task i = Inl e" "i < length queries"
    by blast
  have "outer (run_events ?task arrivals (gather (length queries))) = Some (Inl e)"
    using assms(1,2) i(1,2) by (rule gather_first_failure)
  then have cq: "collect_queries Tweet session arrivals queries w =
      (Some (Inl e),
       w\<lparr>sessions_opened := sessions_opened w + 1,
         get_calls := get_calls w @ queries,
         sessions_closed := sessions_closed w + 1\<rparr>)"
    by (simp add: collect_queries_def Let_def)
  have same: "find (\<lambda>k. isl (?fetch k)) arrivals = find (\<lambda>i. isl (?task i)) arrivals"
    using assms(2) by (intro find_cong) auto
  have "?fetch i = Inl e"
    using i(2,3) task by simp
  then show ?thesis
    using i(1) cq same by (auto simp: res_def)
qed

theorem collect_queries_first_failure_witness:
  "distinct [1, 2, 0::nat] \<and> set [1, 2, 0::nat] = {..<3} \<and>
   fetch_tweets_fancy Inr endpoint_bad 0 (lit ''q1'') = Inl (KeyError (lit ''results'')) \<and>
   fetch_tweets_fancy Inr endpoint_bad 2 (lit ''q3'') = Inl TimeoutError \<and>
   fst (collect_queries Inr endpoint_bad [1, 2, 0] [lit ''q1'', lit ''q2'', lit ''q3''] world0) =
     Some (Inl TimeoutError)"
proof -
  let ?qs = "[lit ''q1'', lit ''q2'', lit ''q3'']"
  have len: "length ?qs = 3" by simp
  have d: "distinct [1, 2, 0::nat]" by simp
  have s: "set [1, 2, 0::nat] = {..<3}" by code_simp
  have q1: "fetch_tweets_fancy Inr endpoint_bad 0 (lit ''q1'') = Inl (KeyError (lit ''results''))"
    by (simp add: fetch_tweets_fancy_def endpoint_bad_def mock_endpoint_def body_of_def lit_def)
  have q2: "fetch_tweets_fancy Inr endpoint_bad 1 (lit ''q2'') = Inr [PInt 2, PInt 3]"
    by (simp add: fetch_tweets_fancy_def endpoint_bad_def mock_endpoint_def body_of_def lit_def)
  have q3: "fetch_tweets_fancy Inr endpoint_bad 2 (lit ''q3'') = Inl TimeoutError"
    by (simp add: fetch_tweets_fancy_def endpoint_bad_def mock_endpoint_def body_of_def lit_def)
  have f: "\<exists>k<3. isl (fetch_tweets_fancy Inr endpoint_bad k (?qs ! k))"
    using q1 by (intro exI [of _ 0]) simp
  from collect_queries_first_failure [of "[1, 2, 0]" ?qs Inr endpoint_bad world0,
      unfolded len, OF d s f]
  obtain i e where i: "find (\<lambda>k. isl (fetch_tweets_fancy Inr endpoint_bad k (?qs ! k))) [1, 2, 0] = Some i"
    and e: "fetch_tweets_fancy Inr endpoint_bad i (?qs ! i) = Inl e"
    and r: "fst (collect_queries Inr endpoint_bad [1, 2, 0] ?qs world0) = Some (Inl e)"
    by auto
  have "i = 2"
    using i q1 q2 q3 by simp
  then have "e = TimeoutError"
    using e q3 by simp
  then have r': "fst (collect_queries Inr endpoint_bad [1, 2, 0] ?qs world0) = Some (Inl TimeoutError)"
    using r by simp
  show ?thesis
    by (intro conjI) (fact d s q1 q3 r')+
qed

text \<open>
  Claim C4. Whenever a call of \<open>collect_queries\<close> is left, with the list of results or
  with an exception, it has opened one session and closed one session; and the call is
  left whenever every task finishes, whether all fetches succeed, some fail or all fail.
\<close>

theorem collect_queries_session_once:
  "(fst (collect_queries Tweet session arrivals queries w) \<noteq> None \<longrightarrow>
      sessions_opened (snd (collect_queries Tweet session arrivals queries w)) = sessions_opened w + 1 \<and>
      sessions_closed (snd (collect_queries Tweet session arrivals queries w)) = sessions_closed w + 1) \<and>
   (distinct arrivals \<and> set arrivals = {..<length queries} \<longrightarrow>
      fst (collect_queries Tweet session arrivals queries w) \<noteq> None)"
proof (intro conjI impI)
  assume "fst (collect_queries Tweet session arrivals queries w) \<noteq> None"
  then show "sessions_opened (snd (collect_queries Tweet session arrivals queries w)) = sessions_opened w + 1"
    and "sessions_closed (snd (collect_queries Tweet session arrivals queries w)) = sessions_closed w + 1"
    by (auto simp: collect_queries_def Let_def split: option.splits)
next
  assume "distinct arrivals \<and> set arrivals = {..<length queries}"
  then have "outer (run_events
      (\<lambda>i. map (\<lambda>k. fetch_tweets_fancy Tweet session k (queries ! k)) [0..<length queries] ! i)
      arrivals (gather (length queries))) \<noteq> None"
    by (intro run_events_outer_done) simp_all
  then show "fst (collect_queries Tweet session arrivals queries w) \<noteq> None"
    by (auto simp: collect_queries_def Let_def split: option.splits)
qed

theorem collect_queries_session_once_witness:
  "fst (collect_queries Inr endpoint_bad [1, 2, 0] [lit ''q1'', lit ''q2'', lit ''q3''] world0) \<noteq> None \<and>
   sessions_opened (snd (collect_queries Inr endpoint_bad [1, 2, 0] [lit ''q1'', lit ''q2'', lit ''q3''] world0)) = 1 \<and>
   sessions_closed (snd (collect_queries Inr endpoint_bad [1, 2, 0] [lit ''q1'', lit ''q2'', lit ''q3''] world0)) = 1"
proof -
  have "distinct [1, 2, 0::nat] \<and> set [1, 2, 0::nat] = {..<length [lit ''q1'', lit ''q2'', lit ''q3'']}"
    by code_simp
  then show ?thesis
    using collect_queries_session_once [of Inr endpoint_bad "[1, 2, 0]" "[lit ''q1'', lit ''q2'', lit ''q3'']" world0]
    by (simp add: world0_def)
qed

text \<open>
  Claim C5. For the empty list of queries \<open>collect_queries\<close> returns the empty list, the
  calling cell gets the empty aggregate, and no call of \<open>session.get\<close> is made.
\<close>

theorem collect_queries_empty:
  "collect_queries Tweet session arrivals [] w =
     (Some (Inr []), w\<lparr>sessions_opened := sessions_opened w + 1,
                       sessions_closed := sessions_closed w + 1\<rparr>) \<and>
   res (fst (collect_queries Tweet session arrivals [] w)) = Some (Inr []) \<and>
   get_calls (snd (collect_queries Tweet session arrivals [] w)) = get_calls w"
  by (simp add: collect_queries_def res_def Let_def)

end
